theory Spec2Isabelle
  imports Complex_Main "HOL-Library.Multiset"
begin

section \<open>Floating-point values\<close>

text \<open>
  The script computes with Python floats. Rounding plays no part in the properties
  below, so a finite float is a real number; the three special values that the script
  can produce or compare against (\<open>float('inf')\<close>, its negation and \<open>np.NaN\<close>) are
  kept as values of their own. A zero divisor is taken as \<open>+0.0\<close>; the only quotient
  of the script is passed through \<open>np.abs\<close>, which removes the sign again.
\<close>

datatype pyfloat = Finite real | PosInf | NegInf | NaN

fun float_less :: "pyfloat \<Rightarrow> pyfloat \<Rightarrow> bool" where
  "float_less (Finite a) (Finite b) = (a < b)"
| "float_less (Finite a) PosInf = True"
| "float_less NegInf (Finite b) = True"
| "float_less NegInf PosInf = True"
| "float_less _ _ = False"

fun float_add :: "pyfloat \<Rightarrow> pyfloat \<Rightarrow> pyfloat" where
  "float_add (Finite a) (Finite b) = Finite (a + b)"
| "float_add NaN _ = NaN"
| "float_add _ NaN = NaN"
| "float_add PosInf NegInf = NaN"
| "float_add NegInf PosInf = NaN"
| "float_add PosInf _ = PosInf"
| "float_add NegInf _ = NegInf"
| "float_add (Finite a) PosInf = PosInf"
| "float_add (Finite a) NegInf = NegInf"

fun float_sub :: "pyfloat \<Rightarrow> pyfloat \<Rightarrow> pyfloat" where
  "float_sub (Finite a) (Finite b) = Finite (a - b)"
| "float_sub NaN _ = NaN"
| "float_sub _ NaN = NaN"
| "float_sub PosInf PosInf = NaN"
| "float_sub NegInf NegInf = NaN"
| "float_sub PosInf _ = PosInf"
| "float_sub NegInf _ = NegInf"
| "float_sub (Finite a) PosInf = NegInf"
| "float_sub (Finite a) NegInf = PosInf"

fun float_mul :: "pyfloat \<Rightarrow> pyfloat \<Rightarrow> pyfloat" where
  "float_mul (Finite a) (Finite b) = Finite (a * b)"
| "float_mul NaN _ = NaN"
| "float_mul _ NaN = NaN"
| "float_mul PosInf (Finite b) = (if b = 0 then NaN else if 0 < b then PosInf else NegInf)"
| "float_mul NegInf (Finite b) = (if b = 0 then NaN else if 0 < b then NegInf else PosInf)"
| "float_mul (Finite a) PosInf = (if a = 0 then NaN else if 0 < a then PosInf else NegInf)"
| "float_mul (Finite a) NegInf = (if a = 0 then NaN else if 0 < a then NegInf else PosInf)"
| "float_mul PosInf PosInf = PosInf"
| "float_mul NegInf NegInf = PosInf"
| "float_mul PosInf NegInf = NegInf"
| "float_mul NegInf PosInf = NegInf"

text \<open>
  numpy and pandas divide without raising: a nonzero number over zero is an infinity,
  zero over zero is NaN.
\<close>

fun float_div :: "pyfloat \<Rightarrow> pyfloat \<Rightarrow> pyfloat" where
  "float_div (Finite a) (Finite b) =
     (if b = 0 then (if a = 0 then NaN else if 0 < a then PosInf else NegInf)
      else Finite (a / b))"
| "float_div NaN _ = NaN"
| "float_div _ NaN = NaN"
| "float_div (Finite a) _ = Finite 0"
| "float_div PosInf (Finite b) = (if 0 \<le> b then PosInf else NegInf)"
| "float_div NegInf (Finite b) = (if 0 \<le> b then NegInf else PosInf)"
| "float_div _ _ = NaN"

fun float_abs :: "pyfloat \<Rightarrow> pyfloat" where
  "float_abs (Finite a) = Finite \<bar>a\<bar>"
| "float_abs PosInf = PosInf"
| "float_abs NegInf = PosInf"
| "float_abs NaN = NaN"

section \<open>Candidate enumeration (script lines 203--214)\<close>

text \<open>\<open>range(lo, hi)\<close> for the non-negative orders of the script.\<close>

definition range_nat :: "nat \<Rightarrow> nat \<Rightarrow> nat list" where
  "range_nat lo hi = [lo..<hi]"

text \<open>
  \<open>itertools.product\<close> of four iterables: the rightmost one advances fastest. It has
  no failing branch.
\<close>

definition product4 :: "'a list \<Rightarrow> 'b list \<Rightarrow> 'c list \<Rightarrow> 'd list \<Rightarrow> ('a \<times> 'b \<times> 'c \<times> 'd) list" where
  "product4 ps qs Ps Qs =
     concat (map (\<lambda>p. concat (map (\<lambda>q. concat (map (\<lambda>P. map (\<lambda>Q. (p, q, P, Q)) Qs) Ps)) qs)) ps)"

text \<open>\<open>parameters = product(ps, qs, Ps, Qs); parameters_list = list(parameters)\<close>\<close>

definition parameters_list :: "nat list \<Rightarrow> nat list \<Rightarrow> nat list \<Rightarrow> nat list \<Rightarrow> (nat \<times> nat \<times> nat \<times> nat) list" where
  "parameters_list ps qs Ps Qs = product4 ps qs Ps Qs"

section \<open>The fitted model and the search (script lines 217--262)\<close>

type_synonym param = "nat \<times> nat \<times> nat \<times> nat"

text \<open>
  What the script reads from a statsmodels results object: its \<open>aic\<close>, its
  \<open>fittedvalues\<close> (one per observation) and its prediction at an absolute index.
  The AIC of a model that was fitted is taken to be a finite number.
\<close>

record FittedModel =
  aic :: real
  fittedvalues :: "real list"
  predicted_at :: "nat \<Rightarrow> real"

text \<open>
  \<open>SARIMAX(data.CLOSE, order=(p, d, q), seasonal_order=(P, D, Q, s)).fit(disp=-1)\<close> is
  the numerical optimiser of statsmodels on the global series. It is a parameter of the
  model: a function of the two order tuples that gives a fitted model, or \<open>None\<close>
  when the call raises.
\<close>

type_synonym fitter = "nat \<times> nat \<times> nat \<Rightarrow> nat \<times> nat \<times> nat \<times> nat \<Rightarrow> FittedModel option"

datatype error =
    ValueError
  | KeyError
  | FitFailure
  | NoViableModelError
  | InvalidRangeError
  | DivisionByZeroError

text \<open>
  \<open>ValueError\<close> is pandas' "Length mismatch" when column names are assigned to a
  frame with another number of columns; \<open>KeyError\<close> is a missing row label;
  \<open>FitFailure\<close> stands for whatever the fit raises outside a \<open>try\<close>. The last
  three names are the specification's; no statement of the script raises them.
\<close>

text \<open>The local variables of \<open>optimize_SARIMA\<close>; \<open>None\<close> is a name not yet bound.\<close>

record search_state =
  results :: "(param \<times> real) list"
  best_aic :: pyfloat
  best_model :: "FittedModel option"
  best_param :: "param option"

definition init_state :: search_state where
  "init_state = \<lparr>results = [], best_aic = PosInf, best_model = None, best_param = None\<rparr>"

text \<open>The fit of one candidate, as lines 231--232 and 259--260 write it.\<close>

definition fit_candidate :: "fitter \<Rightarrow> nat \<Rightarrow> nat \<Rightarrow> nat \<Rightarrow> param \<Rightarrow> FittedModel option" where
  "fit_candidate fit d D s param = (case param of (p, q, P, Q) \<Rightarrow> fit (p, d, q) (P, D, Q, s))"

text \<open>
  One pass through the body of the \<open>for\<close> loop. The bare \<open>except: continue\<close>
  leaves every variable as it was.
\<close>

definition loop_body :: "fitter \<Rightarrow> nat \<Rightarrow> nat \<Rightarrow> nat \<Rightarrow> search_state \<Rightarrow> param \<Rightarrow> search_state" where
  "loop_body fit d D s st param =
     (case fit_candidate fit d D s param of
        None \<Rightarrow> st
      | Some model \<Rightarrow>
          (let a = aic model;
               st1 = (if float_less (Finite a) (best_aic st)
                      then st\<lparr>best_aic := Finite a, best_model := Some model,
                              best_param := Some param\<rparr>
                      else st)
           in st1\<lparr>results := results st1 @ [(param, aic model)]\<rparr>))"

definition search_loop :: "fitter \<Rightarrow> nat \<Rightarrow> nat \<Rightarrow> nat \<Rightarrow> param list \<Rightarrow> search_state" where
  "search_loop fit d D s plist = foldl (loop_body fit d D s) init_state plist"

text \<open>
  \<open>result_table.sort_values(by='aic', ascending=True).reset_index(drop=True)\<close>: the
  call names no \<open>kind\<close>, so pandas sorts with its default algorithm, quicksort, for
  which pandas promises an ascending rearrangement of the rows and nothing about rows
  with equal keys (its documentation names mergesort and stable as the only stable
  kinds). The sort is therefore a parameter \<open>sort_values\<close>, and
  \<open>sort_values_spec\<close> is what every theorem below may use of it. After
  \<open>reset_index\<close> the row labels are the positions, so the table is a list.
\<close>

definition sort_values_spec :: "((param \<times> real) list \<Rightarrow> (param \<times> real) list) \<Rightarrow> bool" where
  "sort_values_spec sort_values =
     (\<forall>rows. sorted (map snd (sort_values rows)) \<and> mset (sort_values rows) = mset rows)"

text \<open>
  \<open>pd.DataFrame(results)\<close> of an empty list has no column, and naming its two columns
  raises; otherwise every row is \<open>[param, aic]\<close> and the frame has two columns.
\<close>

definition optimize_SARIMA ::
  "((param \<times> real) list \<Rightarrow> (param \<times> real) list) \<Rightarrow> fitter \<Rightarrow> param list \<Rightarrow> nat \<Rightarrow> nat \<Rightarrow> nat
     \<Rightarrow> error + (param \<times> real) list" where
  "optimize_SARIMA sort_values fit plist d D s =
     (let st = search_loop fit d D s plist
      in if results st = [] then Inl ValueError
         else Inr (sort_values (results st)))"

text \<open>
  Lines 257--260: \<open>p, q, P, Q = result_table.parameters[0]\<close>, then the model of that
  row is fitted again, outside any \<open>try\<close>, and bound to the global \<open>best_model\<close>.
\<close>

definition refit_best :: "fitter \<Rightarrow> nat \<Rightarrow> nat \<Rightarrow> nat \<Rightarrow> (param \<times> real) list \<Rightarrow> error + FittedModel" where
  "refit_best fit d D s result_table =
     (case result_table of
        [] \<Rightarrow> Inl KeyError
      | row # _ \<Rightarrow>
          (case fit_candidate fit d D s (fst row) of
             None \<Rightarrow> Inl FitFailure
           | Some model \<Rightarrow> Inr model))"

text \<open>Lines 252--260 together: the globals \<open>result_table\<close> and \<open>best_model\<close>.\<close>

definition model_search ::
  "((param \<times> real) list \<Rightarrow> (param \<times> real) list) \<Rightarrow> fitter \<Rightarrow> param list \<Rightarrow> nat \<Rightarrow> nat \<Rightarrow> nat
     \<Rightarrow> error + ((param \<times> real) list \<times> FittedModel)" where
  "model_search sort_values fit plist d D s =
     (case optimize_SARIMA sort_values fit plist d D s of
        Inl e \<Rightarrow> Inl e
      | Inr result_table \<Rightarrow>
          (case refit_best fit d D s result_table of
             Inl e \<Rightarrow> Inl e
           | Inr model \<Rightarrow> Inr (result_table, model)))"

section \<open>Forecast and error (script lines 266--299)\<close>

text \<open>
  \<open>Series.mean\<close>, which \<open>np.mean\<close> calls on a pandas Series: NaN entries are skipped,
  the others are summed and divided by their number; with nothing left the mean is NaN.
\<close>

definition series_mean :: "pyfloat list \<Rightarrow> pyfloat" where
  "series_mean xs =
     (let vs = filter (\<lambda>v. v \<noteq> NaN) xs
      in if vs = [] then NaN
         else float_div (foldl float_add (Finite 0) vs) (Finite (real (length vs))))"

text \<open>
  \<open>np.mean(np.abs((y_true - y_pred) / y_true)) * 100\<close> on two Series over the same
  index. There is no test of the divisor and no \<open>raise\<close>.
\<close>

definition mean_absolute_percentage_error :: "pyfloat list \<Rightarrow> pyfloat list \<Rightarrow> pyfloat" where
  "mean_absolute_percentage_error y_true y_pred =
     float_mul
       (series_mean (map (\<lambda>(t, p). float_abs (float_div (float_sub t p) t)) (zip y_true y_pred)))
       (Finite 100)"

text \<open>\<open>model.predict(start, end)\<close> of statsmodels: one value per index from \<open>start\<close> to \<open>end\<close>, both included.\<close>

definition predict :: "FittedModel \<Rightarrow> nat \<Rightarrow> nat \<Rightarrow> real list" where
  "predict model start end = map (predicted_at model) [start..<end + 1]"

text \<open>
  What \<open>plot_SARIMA\<close> computes before it draws: the column \<open>arima_model\<close>, the
  series \<open>forecast\<close> and the number \<open>error\<close>. The body reads the globals \<open>s\<close> and
  \<open>d\<close>; they are the first two arguments here. Assigning \<open>model.fittedvalues\<close> to a
  column aligns it with the index of the frame, a missing label giving NaN.
\<close>

record report =
  arima_model :: "pyfloat list"
  forecast :: "pyfloat list"
  error :: pyfloat

definition plot_SARIMA :: "nat \<Rightarrow> nat \<Rightarrow> real list \<Rightarrow> FittedModel \<Rightarrow> nat \<Rightarrow> report" where
  "plot_SARIMA s d series model n_steps =
     (let actual = map Finite series;
          column = map (\<lambda>i. if i < length (fittedvalues model)
                             then Finite (fittedvalues model ! i) else NaN)
                       [0..<length series];
          arima = replicate (min (s + d) (length column)) NaN @ drop (s + d) column;
          future = predict model (length series) (length series + n_steps);
          err = mean_absolute_percentage_error (drop (s + d) actual) (drop (s + d) arima)
      in \<lparr>arima_model = arima, forecast = arima @ map Finite future, error = err\<rparr>)"

section \<open>Notions used to state the properties\<close>

text \<open>The candidates whose fit succeeds, with their models, in enumeration order.\<close>

definition fitted_candidates :: "fitter \<Rightarrow> nat \<Rightarrow> nat \<Rightarrow> nat \<Rightarrow> param list \<Rightarrow> (param \<times> FittedModel) list" where
  "fitted_candidates fit d D s plist =
     List.map_filter (\<lambda>param. map_option (Pair param) (fit_candidate fit d D s param)) plist"

text \<open>Two sorts that meet \<open>sort_values_spec\<close>: one keeps equal keys in order, one reverses them.\<close>

definition stable_sort_values :: "(param \<times> real) list \<Rightarrow> (param \<times> real) list" where
  "stable_sort_values rows = sort_key snd rows"


text \<open>Fitters for concrete runs: one that fails when \<open>p = 0\<close>, one that always fails, one that gives every model the same AIC.\<close>

definition sample_model :: "real \<Rightarrow> FittedModel" where
  "sample_model a = \<lparr>aic = a, fittedvalues = [], predicted_at = (\<lambda>i. 0)\<rparr>"

definition sample_fit :: fitter where
  "sample_fit order seasonal =
     (case order of (p, d, q) \<Rightarrow> if p = 0 then None else Some (sample_model (real (p + q))))"

definition failing_fit :: fitter where
  "failing_fit order seasonal = None"


text \<open>A fitted model with given fitted values, for concrete runs of \<open>plot_SARIMA\<close>.\<close>

definition sample_forecaster :: "real list \<Rightarrow> FittedModel" where
  "sample_forecaster fv = \<lparr>aic = 0, fittedvalues = fv, predicted_at = (\<lambda>i. 2)\<rparr>"

text \<open>
  \<open>best_at st fc i\<close>: the state \<open>st\<close> retains the candidate at position \<open>i\<close> of the
  fitted candidates \<open>fc\<close>, whose AIC is the least of all and strictly below that of
  every earlier one.
\<close>

definition best_at :: "search_state \<Rightarrow> (param \<times> FittedModel) list \<Rightarrow> nat \<Rightarrow> bool" where
  "best_at st fc i =
     (i < length fc \<and> best_aic st = Finite (aic (snd (fc ! i))) \<and>
      best_model st = Some (snd (fc ! i)) \<and> best_param st = Some (fst (fc ! i)) \<and>
      (\<forall>j<i. aic (snd (fc ! i)) < aic (snd (fc ! j))) \<and>
      (\<forall>j<length fc. aic (snd (fc ! i)) \<le> aic (snd (fc ! j))))"

section \<open>The enumeration is the Cartesian product\<close>

lemma product4_product:
  "product4 ps qs Ps Qs = List.product ps (List.product qs (List.product Ps Qs))"
  by (simp add: product4_def product_concat_map map_concat comp_def)

lemma length_product4:
  "length (product4 ps qs Ps Qs) = length ps * length qs * length Ps * length Qs"
  by (simp add: product4_product)

lemma set_product4:
  "set (product4 ps qs Ps Qs) = set ps \<times> set qs \<times> set Ps \<times> set Qs"
  by (simp add: product4_product)

lemma distinct_product4:
  "distinct ps \<Longrightarrow> distinct qs \<Longrightarrow> distinct Ps \<Longrightarrow> distinct Qs \<Longrightarrow> distinct (product4 ps qs Ps Qs)"
  by (simp add: product4_product distinct_product)

lemma pair_index:
  fixes i j m :: nat
  assumes "j < m"
  shows "(i * m + j) div m = i" "(i * m + j) mod m = j"
  using assms by simp_all

lemma pair_index_bound:
  fixes i j m n :: nat
  assumes "i < n" "j < m"
  shows "i * m + j < n * m"
proof -
  have "i * m + j < i * m + m" using assms by simp
  also have "\<dots> = (Suc i) * m" by simp
  also have "\<dots> \<le> n * m" using assms(1) by (intro mult_le_mono1) simp
  finally show ?thesis .
qed

lemma nth_product2:
  assumes "i < length xs" "j < length ys"
  shows "List.product xs ys ! (i * length ys + j) = (xs ! i, ys ! j)"
  using assms pair_index_bound [OF assms] by (simp add: product_nth pair_index)

lemma nth_product4:
  assumes "i < length ps" "j < length qs" "k < length Ps" "l < length Qs"
  shows "product4 ps qs Ps Qs ! (((i * length qs + j) * length Ps + k) * length Qs + l)
         = (ps ! i, qs ! j, Ps ! k, Qs ! l)"
proof -
  let ?R = "List.product Ps Qs"
  let ?S = "List.product qs ?R"
  have r: "k * length Qs + l < length ?R"
    using pair_index_bound [OF assms(3,4)] by simp
  have s: "j * length ?R + (k * length Qs + l) < length ?S"
    using pair_index_bound [OF assms(2) r] by simp
  have idx: "((i * length qs + j) * length Ps + k) * length Qs + l
        = i * length ?S + (j * length ?R + (k * length Qs + l))"
    by (simp add: algebra_simps)
  have "product4 ps qs Ps Qs ! (i * length ?S + (j * length ?R + (k * length Qs + l)))
        = (ps ! i, ?S ! (j * length ?R + (k * length Qs + l)))"
    unfolding product4_product using assms(1) s by (rule nth_product2)
  also have "?S ! (j * length ?R + (k * length Qs + l)) = (qs ! j, ?R ! (k * length Qs + l))"
    using assms(2) r by (rule nth_product2)
  also have "?R ! (k * length Qs + l) = (Ps ! k, Qs ! l)"
    using assms(3,4) by (rule nth_product2)
  finally show ?thesis unfolding idx .
qed

lemma range_nat_props: "distinct (range_nat lo hi)" "length (range_nat lo hi) = hi - lo"
  by (simp_all add: range_nat_def)

text \<open>
  C5. For four ranges (any four lists without repetition), the enumeration has exactly
  \<open>|ps| * |qs| * |Ps| * |Qs|\<close> entries, no entry twice, its entries are exactly the
  tuples of the Cartesian product, and the tuple built from positions \<open>i, j, k, l\<close>
  of the four ranges stands at position \<open>((i * |qs| + j) * |Ps| + k) * |Qs| + l\<close>:
  the order is lexicographic in the ranges as supplied. The default ranges
  \<open>range(0, 5)\<close> of the script give 625 candidates.
\<close>

theorem parameters_list_cartesian:
  assumes "distinct ps" "distinct qs" "distinct Ps" "distinct Qs"
  shows "length (parameters_list ps qs Ps Qs) = length ps * length qs * length Ps * length Qs \<and>
         distinct (parameters_list ps qs Ps Qs) \<and>
         set (parameters_list ps qs Ps Qs) = set ps \<times> set qs \<times> set Ps \<times> set Qs \<and>
         (\<forall>i j k l. i < length ps \<and> j < length qs \<and> k < length Ps \<and> l < length Qs \<longrightarrow>
            parameters_list ps qs Ps Qs ! (((i * length qs + j) * length Ps + k) * length Qs + l)
              = (ps ! i, qs ! j, Ps ! k, Qs ! l)) \<and>
         length (parameters_list (range_nat 0 5) (range_nat 0 5) (range_nat 0 5) (range_nat 0 5)) = 625"
  unfolding parameters_list_def
  using assms
  by (simp add: length_product4 distinct_product4 set_product4 nth_product4 range_nat_props(2))

theorem parameters_list_cartesian_witness:
  "length (parameters_list (range_nat 0 5) (range_nat 0 5) (range_nat 0 5) (range_nat 0 5)) = 625 \<and>
   distinct (parameters_list (range_nat 0 5) (range_nat 0 5) (range_nat 0 5) (range_nat 0 5)) \<and>
   parameters_list (range_nat 0 5) (range_nat 0 5) (range_nat 0 5) (range_nat 0 5) ! 194 = (1, 2, 3, 4)"
proof -
  note t = parameters_list_cartesian [OF range_nat_props(1) range_nat_props(1) range_nat_props(1)
      range_nat_props(1), of 0 5 0 5 0 5 0 5]
  have len: "length (parameters_list (range_nat 0 5) (range_nat 0 5) (range_nat 0 5) (range_nat 0 5)) = 625"
    using t by (simp add: range_nat_props(2))
  have dist: "distinct (parameters_list (range_nat 0 5) (range_nat 0 5) (range_nat 0 5) (range_nat 0 5))"
    using t by blast
  have "parameters_list (range_nat 0 5) (range_nat 0 5) (range_nat 0 5) (range_nat 0 5)
          ! (((1 * length (range_nat 0 5) + 2) * length (range_nat 0 5) + 3) * length (range_nat 0 5) + 4)
        = (range_nat 0 5 ! 1, range_nat 0 5 ! 2, range_nat 0 5 ! 3, range_nat 0 5 ! 4)"
    using t [THEN conjunct2, THEN conjunct2, THEN conjunct2, THEN conjunct1, rule_format, of 1 2 3 4]
    by (simp add: range_nat_props(2))
  then have "parameters_list (range_nat 0 5) (range_nat 0 5) (range_nat 0 5) (range_nat 0 5) ! 194 = (1, 2, 3, 4)"
    by (simp add: range_nat_props(2)) (simp add: range_nat_def)
  with len dist show ?thesis by blast
qed

text \<open>
  C9, as claimed: an empty range makes the enumerator signal \<open>InvalidRangeError\<close>.
  The script has no such check: \<open>product\<close> of an empty range is the empty
  list, returned as a value.
\<close>

theorem empty_range_counterexample:
  "parameters_list (range_nat 0 0) (range_nat 0 5) (range_nat 0 5) (range_nat 0 5) = []"
  by (simp add: parameters_list_def product4_def range_nat_def)

text \<open>
  C9, amended: the enumerator has no failure mode at all; it returns the empty
  candidate list exactly when one of the four ranges is empty.
\<close>

theorem empty_range_empty_list:
  "(parameters_list ps qs Ps Qs = []) = (ps = [] \<or> qs = [] \<or> Ps = [] \<or> Qs = [])"
proof -
  have "(parameters_list ps qs Ps Qs = []) = (length (parameters_list ps qs Ps Qs) = 0)" by simp
  also have "\<dots> = (ps = [] \<or> qs = [] \<or> Ps = [] \<or> Qs = [])"
    by (simp add: parameters_list_def length_product4)
  finally show ?thesis .
qed

section \<open>The loop of the search\<close>

lemma fitted_candidates_Nil [simp]: "fitted_candidates fit d D s [] = []"
  by (simp add: fitted_candidates_def map_filter_simps)

lemma fitted_candidates_snoc:
  "fitted_candidates fit d D s (plist @ [param]) =
     fitted_candidates fit d D s plist @
       (case fit_candidate fit d D s param of None \<Rightarrow> [] | Some m \<Rightarrow> [(param, m)])"
  by (simp add: fitted_candidates_def map_filter_def split: option.splits)

lemma search_loop_Nil: "search_loop fit d D s [] = init_state"
  by (simp add: search_loop_def)

lemma search_loop_snoc:
  "search_loop fit d D s (plist @ [param]) = loop_body fit d D s (search_loop fit d D s plist) param"
  by (simp add: search_loop_def)

lemma search_loop_append:
  "search_loop fit d D s (xs @ ys) = foldl (loop_body fit d D s) (search_loop fit d D s xs) ys"
  by (simp add: search_loop_def)

lemma results_search_loop:
  "results (search_loop fit d D s plist) =
     map (\<lambda>(c, m). (c, aic m)) (fitted_candidates fit d D s plist)"
proof (induction plist rule: rev_induct)
  case Nil
  show ?case by (simp add: search_loop_Nil init_state_def)
next
  case (snoc param plist)
  then show ?case
    by (simp add: search_loop_snoc fitted_candidates_snoc loop_body_def Let_def split: option.splits)
qed

lemma best_search_loop:
  "(fitted_candidates fit d D s plist = [] \<longrightarrow>
      best_aic (search_loop fit d D s plist) = PosInf \<and>
      best_model (search_loop fit d D s plist) = None \<and>
      best_param (search_loop fit d D s plist) = None) \<and>
   (fitted_candidates fit d D s plist \<noteq> [] \<longrightarrow>
      (\<exists>i. best_at (search_loop fit d D s plist) (fitted_candidates fit d D s plist) i))"
proof (induction plist rule: rev_induct)
  case Nil
  show ?case by (simp add: search_loop_Nil init_state_def)
next
  case (snoc param plist)
  let ?st = "search_loop fit d D s plist"
  let ?fc = "fitted_candidates fit d D s plist"
  show ?case
  proof (cases "fit_candidate fit d D s param")
    case None
    then show ?thesis using snoc
      by (simp add: search_loop_snoc fitted_candidates_snoc loop_body_def)
  next
    case (Some m)
    have fc': "fitted_candidates fit d D s (plist @ [param]) = ?fc @ [(param, m)]"
      by (simp add: fitted_candidates_snoc Some)
    show ?thesis
    proof (cases "?fc = []")
      case True
      with snoc have "best_aic ?st = PosInf" by simp
      then have "best_at (search_loop fit d D s (plist @ [param])) (?fc @ [(param, m)]) 0"
        using True by (simp add: best_at_def search_loop_snoc loop_body_def Some Let_def)
      then show ?thesis unfolding fc' by blast
    next
      case False
      with snoc obtain i where i: "best_at ?st ?fc i" by blast
      show ?thesis
      proof (cases "aic m < aic (snd (?fc ! i))")
        case True
        have "best_at (search_loop fit d D s (plist @ [param])) (?fc @ [(param, m)]) (length ?fc)"
          using i True
          by (auto simp: best_at_def search_loop_snoc loop_body_def Some Let_def nth_append less_Suc_eq)
        then show ?thesis unfolding fc' by blast
      next
        case False
        have "best_at (search_loop fit d D s (plist @ [param])) (?fc @ [(param, m)]) i"
          using i False
          by (auto simp: best_at_def search_loop_snoc loop_body_def Some Let_def nth_append less_Suc_eq)
        then show ?thesis unfolding fc' by blast
      qed
    qed
  qed
qed

lemma fitted_candidates_mem:
  "(c, m) \<in> set (fitted_candidates fit d D s plist) \<longleftrightarrow>
     c \<in> set plist \<and> fit_candidate fit d D s c = Some m"
  by (induction plist) (auto simp: fitted_candidates_def map_filter_simps split: option.splits)

lemma fitted_candidates_empty:
  "fitted_candidates fit d D s plist = [] \<longleftrightarrow> (\<forall>c\<in>set plist. fit_candidate fit d D s c = None)"
  by (auto simp: fitted_candidates_def map_filter_def filter_empty_conv)

lemma map_fst_fitted_candidates:
  "map fst (fitted_candidates fit d D s plist) = filter (\<lambda>c. fit_candidate fit d D s c \<noteq> None) plist"
  by (induction plist) (auto simp: fitted_candidates_def map_filter_simps split: option.splits)

lemma map_fst_rows:
  "map fst (map (\<lambda>(c, m). (c, aic m)) fc) = map fst fc"
  by (induction fc) auto

lemma best_at_Min:
  assumes "best_at st fc i"
  shows "aic (snd (fc ! i)) = Min (set (map (\<lambda>(c, m). aic m) fc))"
proof -
  have "Min (set (map (\<lambda>(c, m). aic m) fc)) = aic (snd (fc ! i))"
  proof (rule Min_eqI)
    show "finite (set (map (\<lambda>(c, m). aic m) fc))" by simp
  next
    fix y assume "y \<in> set (map (\<lambda>(c, m). aic m) fc)"
    then obtain j where "j < length fc" "y = aic (snd (fc ! j))"
      by (auto simp: in_set_conv_nth split: prod.splits)
    then show "aic (snd (fc ! i)) \<le> y" using assms by (simp add: best_at_def)
  next
    have "i < length fc" using assms by (simp add: best_at_def)
    then have "fc ! i \<in> set fc" by simp
    then show "aic (snd (fc ! i)) \<in> set (map (\<lambda>(c, m). aic m) fc)"
      by (force simp: split_def)
  qed
  then show ?thesis by simp
qed

section \<open>The table of the search\<close>

lemma stable_sort_values_spec: "sort_values_spec stable_sort_values"
  by (simp add: sort_values_spec_def stable_sort_values_def)



lemma sort_values_spec_mset:
  "sort_values_spec sort_values \<Longrightarrow> mset (sort_values rows) = mset rows"
  unfolding sort_values_spec_def by blast

lemma sort_values_spec_sorted:
  "sort_values_spec sort_values \<Longrightarrow> sorted (map snd (sort_values rows))"
  unfolding sort_values_spec_def by blast

lemma optimize_SARIMA_rows:
  "optimize_SARIMA srt fit plist d D s =
     (if fitted_candidates fit d D s plist = [] then Inl ValueError
      else Inr (srt (map (\<lambda>(c, m). (c, aic m)) (fitted_candidates fit d D s plist))))"
  by (simp add: optimize_SARIMA_def Let_def results_search_loop)

lemma optimize_SARIMA_Inr:
  "optimize_SARIMA sort_values fit plist d D s = Inr t \<Longrightarrow>
     t = sort_values (map (\<lambda>(c, m). (c, aic m)) (fitted_candidates fit d D s plist))"
  by (simp add: optimize_SARIMA_rows split: if_splits)

section \<open>Properties of the search\<close>






text \<open>
  C3, as claimed: when every candidate fails, the search signals
  \<open>NoViableModelError\<close>. The script knows no such error; what is raised is the
  \<open>ValueError\<close> of line 246, where two column names meet a frame without columns.
\<close>

theorem all_fail_counterexample:
  "optimize_SARIMA stable_sort_values failing_fit [(0,0,0,0),(0,0,0,1)] 1 1 5 = Inl ValueError \<and>
   optimize_SARIMA stable_sort_values failing_fit [(0,0,0,0),(0,0,0,1)] 1 1 5 \<noteq> Inl NoViableModelError"
  by (simp add: optimize_SARIMA_def search_loop_def loop_body_def init_state_def fit_candidate_def
        failing_fit_def Let_def)

text \<open>
  C3, amended: when every candidate fails, the search returns no table: it raises
  pandas' \<open>ValueError\<close>, the script gets no \<open>best_model\<close> from it, and the
  local \<open>best_model\<close> of the loop was never bound.
\<close>

theorem all_fail_value_error:
  assumes "\<forall>c\<in>set plist. fit_candidate fit d D s c = None"
  shows "optimize_SARIMA sort_values fit plist d D s = Inl ValueError \<and>
         model_search sort_values fit plist d D s = Inl ValueError \<and>
         best_model (search_loop fit d D s plist) = None"
proof -
  have e: "fitted_candidates fit d D s plist = []" using assms by (simp add: fitted_candidates_empty)
  then have o: "optimize_SARIMA sort_values fit plist d D s = Inl ValueError"
    by (simp add: optimize_SARIMA_rows)
  have b: "best_model (search_loop fit d D s plist) = None"
    using best_search_loop [of fit d D s plist] e by simp
  from o b show ?thesis by (simp add: model_search_def)
qed

theorem all_fail_value_error_witness:
  "optimize_SARIMA stable_sort_values failing_fit [(0,0,0,0),(0,0,0,1)] 1 1 5 = Inl ValueError \<and>
   model_search stable_sort_values failing_fit [(0,0,0,0),(0,0,0,1)] 1 1 5 = Inl ValueError \<and>
   best_model (search_loop failing_fit 1 1 5 [(0,0,0,0),(0,0,0,1)]) = None"
proof -
  have "\<forall>c\<in>set [(0,0,0,0),(0::nat,0::nat,0::nat,1::nat)]. fit_candidate failing_fit 1 1 5 c = None"
    by (simp add: fit_candidate_def failing_fit_def)
  from all_fail_value_error [OF this] show ?thesis .
qed

text \<open>
  C4. A candidate whose fit raises leaves no row and does not stop the loop: the
  parameters recorded are exactly the candidates that fit, in order, each with the AIC
  of its model; the search never passes a fit failure on; and the table it returns has
  rows for exactly those candidates.
\<close>

theorem failed_fits_skipped:
  assumes "sort_values_spec sort_values"
  shows "map fst (results (search_loop fit d D s plist))
           = filter (\<lambda>c. fit_candidate fit d D s c \<noteq> None) plist \<and>
         (\<forall>row\<in>set (results (search_loop fit d D s plist)).
            \<exists>m. fit_candidate fit d D s (fst row) = Some m \<and> snd row = aic m) \<and>
         optimize_SARIMA sort_values fit plist d D s \<noteq> Inl FitFailure \<and>
         (\<forall>t. optimize_SARIMA sort_values fit plist d D s = Inr t \<longrightarrow>
            mset (map fst t) = mset (filter (\<lambda>c. fit_candidate fit d D s c \<noteq> None) plist)) \<and>
         ((\<exists>c\<in>set plist. fit_candidate fit d D s c \<noteq> None) \<longrightarrow>
            (\<exists>t. optimize_SARIMA sort_values fit plist d D s = Inr t))"
proof -
  let ?fc = "fitted_candidates fit d D s plist"
  let ?rows = "map (\<lambda>(c, m). (c, aic m)) ?fc"
  have a: "map fst (results (search_loop fit d D s plist))
           = filter (\<lambda>c. fit_candidate fit d D s c \<noteq> None) plist"
    by (simp only: results_search_loop map_fst_rows map_fst_fitted_candidates)
  have b: "\<forall>row\<in>set (results (search_loop fit d D s plist)).
            \<exists>m. fit_candidate fit d D s (fst row) = Some m \<and> snd row = aic m"
    by (auto simp: results_search_loop fitted_candidates_mem)
  have c: "optimize_SARIMA sort_values fit plist d D s \<noteq> Inl FitFailure"
    by (simp add: optimize_SARIMA_rows)
  have d: "\<forall>t. optimize_SARIMA sort_values fit plist d D s = Inr t \<longrightarrow>
            mset (map fst t) = mset (filter (\<lambda>c. fit_candidate fit d D s c \<noteq> None) plist)"
  proof (intro allI impI)
    fix t assume "optimize_SARIMA sort_values fit plist d D s = Inr t"
    then have teq: "t = sort_values ?rows" by (rule optimize_SARIMA_Inr)
    have "mset t = mset ?rows" unfolding teq using assms by (rule sort_values_spec_mset)
    then have "image_mset fst (mset t) = image_mset fst (mset ?rows)" by (rule arg_cong)
    then have "mset (map fst t) = mset (map fst ?rows)" by (simp only: mset_map)
    then show "mset (map fst t) = mset (filter (\<lambda>c. fit_candidate fit d D s c \<noteq> None) plist)"
      by (simp only: map_fst_rows map_fst_fitted_candidates)
  qed
  have e: "(\<exists>c\<in>set plist. fit_candidate fit d D s c \<noteq> None) \<longrightarrow>
            (\<exists>t. optimize_SARIMA sort_values fit plist d D s = Inr t)"
    by (simp add: optimize_SARIMA_rows fitted_candidates_empty)
  show ?thesis by (rule conjI [OF a conjI [OF b conjI [OF c conjI [OF d e]]]])
qed

theorem failed_fits_skipped_witness:
  "map fst (results (search_loop sample_fit 1 1 5 [(0,0,0,0),(1,2,0,0),(0,1,0,0),(2,0,0,0)]))
     = [(1,2,0,0),(2,0,0,0)] \<and>
   (\<exists>t. optimize_SARIMA stable_sort_values sample_fit [(0,0,0,0),(1,2,0,0),(0,1,0,0),(2,0,0,0)] 1 1 5 = Inr t \<and>
        mset (map fst t) = mset [(1,2,0,0),(2,0,0,0)])"
proof -
  have f: "filter (\<lambda>c. fit_candidate sample_fit 1 1 5 c \<noteq> None) [(0,0,0,0),(1,2,0,0),(0,1,0,0),(2,0,0,0)]
        = [(1,2,0,0),(2,0,0,0)]"
    by (simp add: fit_candidate_def sample_fit_def)
  have g: "\<exists>c\<in>set [(0,0,0,0),(1,2,0,0),(0,1,0,0),(2::nat,0::nat,0::nat,0::nat)].
          fit_candidate sample_fit 1 1 5 c \<noteq> None"
    by (simp add: fit_candidate_def sample_fit_def)
  note inst = failed_fits_skipped [OF stable_sort_values_spec, of sample_fit 1 1 5
      "[(0,0,0,0),(1,2,0,0),(0,1,0,0),(2,0,0,0)]", unfolded f]
  have a: "map fst (results (search_loop sample_fit 1 1 5 [(0,0,0,0),(1,2,0,0),(0,1,0,0),(2,0,0,0)]))
     = [(1,2,0,0),(2,0,0,0)]"
    using inst by (rule conjunct1)
  obtain t where t: "optimize_SARIMA stable_sort_values sample_fit
      [(0,0,0,0),(1,2,0,0),(0,1,0,0),(2,0,0,0)] 1 1 5 = Inr t"
    using inst g by blast
  then have "mset (map fst t) = mset [(1,2,0,0),(2,0,0,0)]"
    using inst by blast
  with a t show ?thesis by blast
qed

text \<open>
  C10. After any number \<open>k\<close> of passes through the loop, \<open>best_aic\<close> is still
  \<open>float('inf')\<close> if no candidate has fitted so far, and otherwise it is the least
  AIC among the candidates fitted so far; the model and parameters retained are those
  of the earliest candidate with that AIC (\<open>best_at\<close>), since the test is a strict
  \<open><\<close>.
\<close>

theorem best_aic_invariant:
  "search_loop fit d D s plist
      = foldl (loop_body fit d D s) (search_loop fit d D s (take k plist)) (drop k plist) \<and>
   (fitted_candidates fit d D s (take k plist) = [] \<longrightarrow>
      best_aic (search_loop fit d D s (take k plist)) = PosInf) \<and>
   (fitted_candidates fit d D s (take k plist) \<noteq> [] \<longrightarrow>
      best_aic (search_loop fit d D s (take k plist))
        = Finite (Min (set (map (\<lambda>(c, m). aic m) (fitted_candidates fit d D s (take k plist))))) \<and>
      (\<exists>i. best_at (search_loop fit d D s (take k plist))
              (fitted_candidates fit d D s (take k plist)) i))"
proof -
  let ?pre = "take k plist"
  have a: "search_loop fit d D s plist
      = foldl (loop_body fit d D s) (search_loop fit d D s ?pre) (drop k plist)"
    using search_loop_append [of fit d D s ?pre "drop k plist"] by simp
  have b: "fitted_candidates fit d D s ?pre = [] \<longrightarrow> best_aic (search_loop fit d D s ?pre) = PosInf"
    using best_search_loop [of fit d D s ?pre] by simp
  have c: "best_aic (search_loop fit d D s ?pre)
        = Finite (Min (set (map (\<lambda>(c, m). aic m) (fitted_candidates fit d D s ?pre)))) \<and>
      (\<exists>i. best_at (search_loop fit d D s ?pre) (fitted_candidates fit d D s ?pre) i)"
    if ne: "fitted_candidates fit d D s ?pre \<noteq> []"
  proof -
    obtain i where i: "best_at (search_loop fit d D s ?pre) (fitted_candidates fit d D s ?pre) i"
      using best_search_loop [of fit d D s ?pre] ne by blast
    have "best_aic (search_loop fit d D s ?pre) = Finite (aic (snd (fitted_candidates fit d D s ?pre ! i)))"
      using i by (simp add: best_at_def)
    then show ?thesis using best_at_Min [OF i] i by auto
  qed
  from a b c show ?thesis by blast
qed

theorem best_aic_invariant_witness:
  "best_aic (search_loop sample_fit 1 1 5 (take 3 [(0,0,0,0),(1,2,0,0),(1,1,0,0),(2,0,0,0)]))
        = Finite (Min (set (map (\<lambda>(c, m). aic m)
             (fitted_candidates sample_fit 1 1 5 (take 3 [(0,0,0,0),(1,2,0,0),(1,1,0,0),(2,0,0,0)]))))) \<and>
   (\<exists>i. best_at (search_loop sample_fit 1 1 5 (take 3 [(0,0,0,0),(1,2,0,0),(1,1,0,0),(2,0,0,0)]))
              (fitted_candidates sample_fit 1 1 5 (take 3 [(0,0,0,0),(1,2,0,0),(1,1,0,0),(2,0,0,0)])) i)"
proof -
  have "fitted_candidates sample_fit 1 1 5 (take 3 [(0,0,0,0),(1,2,0,0),(1,1,0,0),(2,0,0,0)]) \<noteq> []"
    by (simp add: fitted_candidates_def map_filter_simps fit_candidate_def sample_fit_def)
  with best_aic_invariant [of sample_fit 1 1 5 "[(0,0,0,0),(1,2,0,0),(1,1,0,0),(2,0,0,0)]" 3]
  show ?thesis by blast
qed

section \<open>Properties of the forecast and of the error\<close>

lemma length_arima_model:
  "length (arima_model (plot_SARIMA s d series model n_steps)) = length series"
  by (simp add: plot_SARIMA_def Let_def)

lemma forecast_plot_SARIMA:
  "forecast (plot_SARIMA s d series model n_steps)
     = arima_model (plot_SARIMA s d series model n_steps)
       @ map Finite (predict model (length series) (length series + n_steps))"
  by (simp add: plot_SARIMA_def Let_def)

lemma length_predict: "length (predict model start (start + n)) = n + 1"
  by (simp add: predict_def)

lemma hd_predict: "hd (predict model start (start + n)) = predicted_at model start"
  by (simp add: predict_def upt_rec [of start] )

lemma drop_masked: "drop k (replicate (min k (length xs)) v @ drop k xs) = drop k xs"
  by (cases "k \<le> length xs") (simp_all add: min_def)

lemma nth_masked: "i < k \<Longrightarrow> i < length xs \<Longrightarrow> (replicate (min k (length xs)) v @ drop k xs) ! i = v"
  by (simp add: nth_append)

lemma aligned_column:
  "length fv = n \<Longrightarrow> map (\<lambda>i. if i < length fv then Finite (fv ! i) else NaN) [0..<n] = map Finite fv"
  by (auto simp: list_eq_iff_nth_eq)

lemma error_plot_SARIMA:
  "error (plot_SARIMA s d series model n_steps)
     = mean_absolute_percentage_error (map Finite (drop (s + d) series))
         (drop (s + d) (map (\<lambda>i. if i < length (fittedvalues model)
                             then Finite (fittedvalues model ! i) else NaN) [0..<length series]))"
  by (simp only: plot_SARIMA_def Let_def report.simps drop_masked drop_map)

lemma error_plot_SARIMA_aligned:
  assumes "length (fittedvalues model) = length series"
  shows "error (plot_SARIMA s d series model n_steps)
     = mean_absolute_percentage_error (map Finite (drop (s + d) series))
         (map Finite (drop (s + d) (fittedvalues model)))"
  by (simp only: error_plot_SARIMA aligned_column [OF assms] drop_map)

lemma ape_Finite:
  "float_abs (float_div (float_sub (Finite t) (Finite p)) (Finite t))
     = (if t = 0 then (if p = 0 then NaN else PosInf) else Finite \<bar>(t - p) / t\<bar>)"
  by simp

lemma foldl_add_from_PosInf:
  "\<forall>v\<in>set vs. v \<noteq> NaN \<and> v \<noteq> NegInf \<Longrightarrow> foldl float_add PosInf vs = PosInf"
proof (induction vs)
  case Nil
  show ?case by simp
next
  case (Cons v vs)
  then have "float_add PosInf v = PosInf" by (cases v) simp_all
  with Cons show ?case by simp
qed

lemma foldl_add_PosInf:
  "PosInf \<in> set vs \<Longrightarrow> \<forall>v\<in>set vs. v \<noteq> NaN \<and> v \<noteq> NegInf \<Longrightarrow> acc \<noteq> NaN \<Longrightarrow> acc \<noteq> NegInf
     \<Longrightarrow> foldl float_add acc vs = PosInf"
proof (induction vs arbitrary: acc)
  case Nil
  then show ?case by simp
next
  case (Cons v vs)
  show ?case
  proof (cases "v = PosInf")
    case True
    then have "float_add acc v = PosInf" using Cons.prems(3,4) by (cases acc) simp_all
    then show ?thesis using foldl_add_from_PosInf [of vs] Cons.prems(2) by simp
  next
    case False
    have "float_add acc v \<noteq> NaN \<and> float_add acc v \<noteq> NegInf"
      using Cons.prems(2,3,4) by (cases acc; cases v) simp_all
    moreover have "PosInf \<in> set vs" using Cons.prems(1) False by auto
    ultimately show ?thesis using Cons.IH [of "float_add acc v"] Cons.prems(2) by simp
  qed
qed

lemma series_mean_PosInf:
  assumes "PosInf \<in> set xs" "NegInf \<notin> set xs"
  shows "series_mean xs = PosInf"
proof -
  let ?vs = "filter (\<lambda>v. v \<noteq> NaN) xs"
  have in_vs: "PosInf \<in> set ?vs" using assms(1) by simp
  then have ne: "?vs \<noteq> []" by (metis empty_iff empty_set)
  have ok: "\<forall>v\<in>set ?vs. v \<noteq> NaN \<and> v \<noteq> NegInf" using assms(2) by auto
  have "foldl float_add (Finite 0) ?vs = PosInf"
    using in_vs ok by (rule foldl_add_PosInf) simp_all
  then show ?thesis using ne by (simp add: series_mean_def Let_def)
qed

lemma mape_zero_actual:
  assumes len: "length ys = length ps" and i: "i < length ys"
    and zero: "ys ! i = 0" and dev: "ps ! i \<noteq> 0"
  shows "mean_absolute_percentage_error (map Finite ys) (map Finite ps) = PosInf"
proof -
  let ?E = "map (\<lambda>(t, p). float_abs (float_div (float_sub t p) t)) (zip (map Finite ys) (map Finite ps))"
  have E: "?E = map (\<lambda>(t, p). if t = 0 then (if p = 0 then NaN else PosInf) else Finite \<bar>(t - p) / t\<bar>) (zip ys ps)"
    by (simp add: zip_map_map split_def del: float_div.simps float_sub.simps float_abs.simps)
       (simp add: ape_Finite del: float_div.simps float_sub.simps float_abs.simps)
  have "?E ! i = PosInf" unfolding E using len i zero dev by simp
  moreover have "i < length ?E" using len i by simp
  ultimately have a: "PosInf \<in> set ?E" by (metis nth_mem)
  have b: "NegInf \<notin> set ?E" unfolding E by (auto split: if_splits)
  have "series_mean ?E = PosInf" using a b by (rule series_mean_PosInf)
  then show ?thesis by (simp add: mean_absolute_percentage_error_def)
qed

lemma sample_error:
  "mean_absolute_percentage_error [Finite 10, Finite 20] [Finite 11, Finite 18] = Finite 10"
  by (simp add: mean_absolute_percentage_error_def series_mean_def)

text \<open>
  C6. Every entry of the column \<open>arima_model\<close> at an index below \<open>s + d\<close> is NaN
  (a value of its own, not \<open>Finite 0\<close>), and the percentage error is computed from
  the observations and fitted values from index \<open>s + d\<close> on and from nothing else:
  two runs that agree from that index on have the same error, whatever stands before
  it. For \<open>s = 5\<close> and \<open>d = 1\<close> the error is that of \<open>drop 6\<close>, so exactly the
  indices 0 to 5 are left out. The fitted values are those of a model fitted on the
  series: one per observation.
\<close>

theorem warmup_excluded:
  "(\<forall>i. i < s + d \<and> i < length series \<longrightarrow>
      arima_model (plot_SARIMA s d series model n_steps) ! i = NaN) \<and>
   (length (fittedvalues model) = length series \<longrightarrow>
      error (plot_SARIMA s d series model n_steps)
        = mean_absolute_percentage_error (map Finite (drop (s + d) series))
            (map Finite (drop (s + d) (fittedvalues model)))) \<and>
   (\<forall>series' model' n_steps'.
      length (fittedvalues model) = length series \<and>
      length (fittedvalues model') = length series' \<and>
      drop (s + d) series' = drop (s + d) series \<and>
      drop (s + d) (fittedvalues model') = drop (s + d) (fittedvalues model) \<longrightarrow>
      error (plot_SARIMA s d series' model' n_steps') = error (plot_SARIMA s d series model n_steps)) \<and>
   (length (fittedvalues model) = length series \<longrightarrow>
      error (plot_SARIMA 5 1 series model n_steps)
        = mean_absolute_percentage_error (map Finite (drop 6 series))
            (map Finite (drop 6 (fittedvalues model))))"
proof -
  have a: "\<forall>i. i < s + d \<and> i < length series \<longrightarrow>
      arima_model (plot_SARIMA s d series model n_steps) ! i = NaN"
  proof (intro allI impI)
    fix i assume i: "i < s + d \<and> i < length series"
    let ?col = "map (\<lambda>i. if i < length (fittedvalues model)
                        then Finite (fittedvalues model ! i) else NaN) [0..<length series]"
    have "(replicate (min (s + d) (length ?col)) NaN @ drop (s + d) ?col) ! i = NaN"
      using i by (intro nth_masked) simp_all
    then show "arima_model (plot_SARIMA s d series model n_steps) ! i = NaN"
      by (simp add: plot_SARIMA_def Let_def)
  qed
  have b: "length (fittedvalues model) = length series \<longrightarrow>
      error (plot_SARIMA s d series model n_steps)
        = mean_absolute_percentage_error (map Finite (drop (s + d) series))
            (map Finite (drop (s + d) (fittedvalues model)))"
    using error_plot_SARIMA_aligned by blast
  have c: "\<forall>series' model' n_steps'.
      length (fittedvalues model) = length series \<and>
      length (fittedvalues model') = length series' \<and>
      drop (s + d) series' = drop (s + d) series \<and>
      drop (s + d) (fittedvalues model') = drop (s + d) (fittedvalues model) \<longrightarrow>
      error (plot_SARIMA s d series' model' n_steps') = error (plot_SARIMA s d series model n_steps)"
    by (simp add: error_plot_SARIMA_aligned)
  have d: "length (fittedvalues model) = length series \<longrightarrow>
      error (plot_SARIMA 5 1 series model n_steps)
        = mean_absolute_percentage_error (map Finite (drop 6 series))
            (map Finite (drop 6 (fittedvalues model)))"
    using error_plot_SARIMA_aligned [of model series 5 1 n_steps] by simp
  show ?thesis by (rule conjI [OF a conjI [OF b conjI [OF c d]]])
qed

theorem warmup_excluded_witness:
  "arima_model (plot_SARIMA 5 1 [10,10,10,10,10,10,10,20] (sample_forecaster [0,0,0,0,0,0,11,18]) 5) ! 5 = NaN \<and>
   error (plot_SARIMA 5 1 [10,10,10,10,10,10,10,20] (sample_forecaster [0,0,0,0,0,0,11,18]) 5) = Finite 10 \<and>
   error (plot_SARIMA 5 1 [0,1,2,3,4,5,10,20] (sample_forecaster [9,9,9,9,9,9,11,18]) 3) = Finite 10"
proof -
  note inst = warmup_excluded [of 5 1 "[10,10,10,10,10,10,10,20]"
      "sample_forecaster [0,0,0,0,0,0,11,18]" 5]
  have a: "arima_model (plot_SARIMA 5 1 [10,10,10,10,10,10,10,20] (sample_forecaster [0,0,0,0,0,0,11,18]) 5) ! 5 = NaN"
    using inst by simp
  have b: "error (plot_SARIMA 5 1 [10,10,10,10,10,10,10,20] (sample_forecaster [0,0,0,0,0,0,11,18]) 5) = Finite 10"
    using inst [THEN conjunct2, THEN conjunct1] by (simp add: sample_forecaster_def sample_error)
  have c: "error (plot_SARIMA 5 1 [0,1,2,3,4,5,10,20] (sample_forecaster [9,9,9,9,9,9,11,18]) 3)
      = error (plot_SARIMA 5 1 [10,10,10,10,10,10,10,20] (sample_forecaster [0,0,0,0,0,0,11,18]) 5)"
    using inst [THEN conjunct2, THEN conjunct2, THEN conjunct1, rule_format,
        of "sample_forecaster [9,9,9,9,9,9,11,18]" "[0,1,2,3,4,5,10,20]" 3]
    by (simp add: sample_forecaster_def)
  from a b c show ?thesis by simp
qed

text \<open>
  C7, as claimed: a zero among the actual values of the window makes the computation
  raise \<open>DivisionByZeroError\<close>. Line 267 divides without a test, and numpy and
  pandas do not raise on a zero divisor: the run below has the actual value 0 at
  index 6, inside the window, and ends with the error \<open>+inf\<close>.
\<close>

theorem zero_actual_counterexample:
  "error (plot_SARIMA 5 1 [1,1,1,1,1,1,0,2] (sample_forecaster [1,1,1,1,1,1,1,2]) 5) = PosInf"
  by (simp add: plot_SARIMA_def sample_forecaster_def Let_def mean_absolute_percentage_error_def
      series_mean_def predict_def)

text \<open>
  C7, amended: the computation never raises; when an actual value of the window is
  exactly zero and the fitted value there is not, the percentage error it returns is
  \<open>+inf\<close>.
\<close>

theorem zero_actual_gives_infinity:
  assumes "length (fittedvalues model) = length series"
    and "s + d \<le> i" and "i < length series"
    and "series ! i = 0" and "fittedvalues model ! i \<noteq> 0"
  shows "error (plot_SARIMA s d series model n_steps) = PosInf"
proof -
  let ?ys = "drop (s + d) series" and ?ps = "drop (s + d) (fittedvalues model)"
  have "length ?ys = length ?ps" using assms(1) by simp
  moreover have "i - (s + d) < length ?ys" using assms(2,3) by simp
  moreover have "?ys ! (i - (s + d)) = 0" using assms(2,3,4) by simp
  moreover have "?ps ! (i - (s + d)) \<noteq> 0" using assms(1,2,3,5) by simp
  ultimately have "mean_absolute_percentage_error (map Finite ?ys) (map Finite ?ps) = PosInf"
    by (rule mape_zero_actual)
  then show ?thesis by (simp only: error_plot_SARIMA_aligned [OF assms(1)])
qed

theorem zero_actual_gives_infinity_witness:
  "error (plot_SARIMA 5 1 [3,3,3,3,3,3,3,0,2] (sample_forecaster [3,3,3,3,3,3,3,1,2]) 2) = PosInf"
proof -
  have "error (plot_SARIMA 5 1 [3,3,3,3,3,3,3,0,2] (sample_forecaster [3,3,3,3,3,3,3,1,2]) 2) = PosInf"
    by (rule zero_actual_gives_infinity [where i = 7]) (simp_all add: sample_forecaster_def)
  then show ?thesis .
qed

text \<open>
  C8. The forecast of \<open>plot_SARIMA\<close> and of line 298 asks \<open>predict\<close> for the
  indices from \<open>n\<close> to \<open>n + n_steps\<close>, both included, where \<open>n\<close> is the number
  of observations: it starts right after the last observation, at index \<open>n\<close>, but it
  has \<open>n_steps + 1\<close> values, six for a horizon of five.
\<close>

theorem forecast_length:
  "length (predict model (length series) (length series + 5)) = 6 \<and>
   length (predict model (length series) (length series + n_steps)) = n_steps + 1 \<and>
   hd (predict model (length series) (length series + n_steps)) = predicted_at model (length series) \<and>
   length (forecast (plot_SARIMA s d series model n_steps)) = length series + (n_steps + 1)"
  by (simp add: length_predict hd_predict forecast_plot_SARIMA length_arima_model)

end
